theory Spec2Isabelle
  imports Main
begin

section \<open>JavaScript values\<close>

text \<open>
  The speech SDK hands the service result objects whose fields may hold any JavaScript
  value. Only what the service does with them is modelled: truthiness, the operator
  \<open>||\<close> and property reads. Numbers are integers here (no NaN), and objects are lists
  of fields compared structurally, where JavaScript compares references; speaker
  identifiers are strings (\<open>speakerId?: string\<close> in Speech.ts), on which both agree.
\<close>

datatype jsval =
    Undefined
  | Null
  | Bool bool
  | Num int
  | Str string
  | Obj "(string \<times> jsval) list"

fun truthy :: "jsval \<Rightarrow> bool" where
  "truthy Undefined = False"
| "truthy Null = False"
| "truthy (Bool b) = b"
| "truthy (Num n) = (n \<noteq> 0)"
| "truthy (Str s) = (s \<noteq> [])"
| "truthy (Obj fs) = True"

text \<open>\<open>a || b\<close> on values that are already evaluated.\<close>

definition js_or :: "jsval \<Rightarrow> jsval \<Rightarrow> jsval" where
  "js_or a b = (if truthy a then a else b)"

datatype js_error = TypeError | SyntaxError

text \<open>
  The property read \<open>v.k\<close>: a TypeError on \<open>undefined\<close> and \<open>null\<close>, the field of
  an object (\<open>undefined\<close> when it has none), and \<open>undefined\<close> on the other primitives
  for the field names the service reads.
\<close>

fun get_prop :: "jsval \<Rightarrow> string \<Rightarrow> js_error + jsval" where
  "get_prop Undefined k = Inl TypeError"
| "get_prop Null k = Inl TypeError"
| "get_prop (Obj fs) k = Inr (case map_of fs k of None \<Rightarrow> Undefined | Some v \<Rightarrow> v)"
| "get_prop v k = Inr Undefined"

text \<open>
  The chain \<open>v.k1 || v.k2 || ... || null\<close>, evaluated from the left and stopping at the
  first truthy field; a read that throws ends the chain.
\<close>

fun or_props :: "jsval \<Rightarrow> string list \<Rightarrow> js_error + jsval" where
  "or_props v [] = Inr Null"
| "or_props v (k # ks) =
     (case get_prop v k of
        Inl e \<Rightarrow> Inl e
      | Inr x \<Rightarrow> if truthy x then Inr x else or_props v ks)"

text \<open>\<open>String.prototype.includes\<close>.\<close>

fun includes_str :: "string \<Rightarrow> string \<Rightarrow> bool" where
  "includes_str [] pat = (pat = [])"
| "includes_str (c # cs) pat = (take (length pat) (c # cs) = pat \<or> includes_str cs pat)"

section \<open>Recognition results and speaker extraction\<close>

datatype resultReason = NoMatch | CanceledReason | RecognizingSpeech | RecognizedSpeech

text \<open>
  The result object of a recognition event. \<open>JSON_parse_json\<close> is what the builtin
  \<open>JSON.parse\<close> gives on the field \<open>json\<close>: a SyntaxError or the parsed value. An
  absent field is \<open>Undefined\<close>, an absent text the empty string.
\<close>

record result =
  reason :: resultReason
  text_of :: string
  userId :: jsval
  speakerId :: jsval
  json :: jsval
  JSON_parse_json :: "js_error + jsval"
  privResult :: jsval

text \<open>
  The body of the \<open>try\<close> block of extractSpeakerId: \<open>Inl\<close> when it throws,
  \<open>Inr (Some v)\<close> when it returns \<open>v\<close>, \<open>Inr None\<close> when control leaves the block
  without a return.
\<close>

definition extractSpeakerId_try :: "result \<Rightarrow> js_error + jsval option" where
  "extractSpeakerId_try r =
     (if truthy (json r) then
        (case JSON_parse_json r of
           Inl e \<Rightarrow> Inl e
         | Inr j \<Rightarrow>
             (case or_props j [''SpeakerId'', ''UserId'', ''speakerId'', ''userId''] of
                Inl e \<Rightarrow> Inl e
              | Inr v \<Rightarrow> Inr (Some v)))
      else if truthy (privResult r) then
        (case or_props (privResult r) [''SpeakerId'', ''speakerId'', ''UserId'', ''userId''] of
           Inl e \<Rightarrow> Inl e
         | Inr v \<Rightarrow> Inr (Some v))
      else Inr None)"

text \<open>
  extractSpeakerId of src/src/App.jsx: the first-class fields are read before the
  \<open>try\<close>; \<open>catch {}\<close> swallows whatever the block throws and the function then
  returns \<open>null\<close>. The result is a sum so that a throw of the function would be \<open>Inl\<close>.
\<close>

definition extractSpeakerId :: "result \<Rightarrow> js_error + jsval" where
  "extractSpeakerId r =
     (if truthy (js_or (userId r) (speakerId r)) then Inr (js_or (userId r) (speakerId r))
      else
        (case extractSpeakerId_try r of
           Inr (Some v) \<Rightarrow> Inr v
         | Inr None \<Rightarrow> Inr Null
         | Inl e \<Rightarrow> Inr Null))"

text \<open>
  extractSpeakerId of frontend/src/services/speechService.js: the whole body is inside
  the \<open>try\<close>, the first-class fields are tested one after the other, and the branch
  of the private result returns only when it finds an identifier; after it a debugging
  step reads the environment, which returns nothing and whose throw is caught like any
  other. The branch of the JSON field is the same.
\<close>

definition extractSpeakerId_speechService_try :: "result \<Rightarrow> js_error + jsval option" where
  "extractSpeakerId_speechService_try r =
     (if truthy (userId r) then Inr (Some (userId r))
      else if truthy (speakerId r) then Inr (Some (speakerId r))
      else if truthy (json r) then
        (case JSON_parse_json r of
           Inl e \<Rightarrow> Inl e
         | Inr j \<Rightarrow>
             (case or_props j [''SpeakerId'', ''UserId'', ''speakerId'', ''userId''] of
                Inl e \<Rightarrow> Inl e
              | Inr v \<Rightarrow> Inr (Some v)))
      else if truthy (privResult r) then
        (case or_props (privResult r) [''SpeakerId'', ''speakerId''] of
           Inl e \<Rightarrow> Inl e
         | Inr v \<Rightarrow>
             if truthy v then Inr (Some v)
             else (case or_props (privResult r) [''UserId'', ''userId''] of
                     Inl e \<Rightarrow> Inl e
                   | Inr w \<Rightarrow> if truthy w then Inr (Some w) else Inr None))
      else Inr None)"

definition extractSpeakerId_speechService :: "result \<Rightarrow> js_error + jsval" where
  "extractSpeakerId_speechService r =
     (case extractSpeakerId_speechService_try r of
        Inr (Some v) \<Rightarrow> Inr v
      | Inr None \<Rightarrow> Inr Null
      | Inl e \<Rightarrow> Inr Null)"

text \<open>
  The extraction as the specification words it: the first-class fields, then the fields
  of the nested JSON result, then those of the private result, the first path that
  yields an identifier deciding; a path that throws makes the answer \<open>null\<close>, and so
  does the absence of any identifier.
\<close>

definition yields :: "js_error + jsval \<Rightarrow> bool" where
  "yields x = (case x of Inl e \<Rightarrow> False | Inr v \<Rightarrow> truthy v)"

definition extractSpeakerId_spec :: "result \<Rightarrow> js_error + jsval" where
  "extractSpeakerId_spec r =
     (let first_class = js_or (userId r) (speakerId r);
          nested = (if truthy (json r)
                    then (case JSON_parse_json r of
                            Inl e \<Rightarrow> Inl e
                          | Inr j \<Rightarrow> or_props j [''SpeakerId'', ''UserId'', ''speakerId'', ''userId''])
                    else Inr Null);
          private = (if truthy (privResult r)
                     then or_props (privResult r) [''SpeakerId'', ''speakerId'', ''UserId'', ''userId'']
                     else Inr Null)
      in if truthy first_class then Inr first_class
         else if isl nested then Inr Null
         else if yields nested then nested
         else if isl private then Inr Null
         else if yields private then private
         else Inr Null)"

section \<open>The speaker registry of the App component\<close>

text \<open>
  The React state \<open>speakers\<close> is a JavaScript Map from speaker identifier to display
  number. A Map keeps its keys distinct and in insertion order, so it is a list of pairs;
  \<open>Map_set\<close> overwrites an existing key in place and appends a new one.
\<close>

type_synonym speakers = "(jsval \<times> nat) list"

definition new_Map :: speakers where
  "new_Map = []"

definition Map_has :: "speakers \<Rightarrow> jsval \<Rightarrow> bool" where
  "Map_has m k = (map_of m k \<noteq> None)"

definition Map_get :: "speakers \<Rightarrow> jsval \<Rightarrow> nat option" where
  "Map_get m k = map_of m k"

definition Map_size :: "speakers \<Rightarrow> nat" where
  "Map_size m = length m"

definition Map_set :: "speakers \<Rightarrow> jsval \<Rightarrow> nat \<Rightarrow> speakers" where
  "Map_set m k v = (if Map_has m k then map (\<lambda>(k', v'). if k' = k then (k', v) else (k', v')) m
                    else m @ [(k, v)])"

text \<open>
  The label shown for a transcription: \<open>Speaker n\<close> is the template string made of the
  fixed prefix, a dash and the number \<open>n\<close>; \<open>Unknown\<close> is the constant label.
\<close>

datatype speakerName = Speaker nat | Unknown

text \<open>
  The updater that onTranscribed passes to setSpeakers: it copies the previous Map, adds
  the identifier when it is truthy and not yet a key, reads the number back, and builds
  the label. It gives the next registry and the label. A display number is truthy unless
  it is 0.
\<close>

definition onTranscribed_updater :: "speakers \<Rightarrow> jsval \<Rightarrow> speakers \<times> speakerName" where
  "onTranscribed_updater prev sid =
     (let newSpeakers = (if truthy sid \<and> \<not> Map_has prev sid
                         then Map_set prev sid (Map_size prev + 1) else prev);
          speakerNum = Map_get newSpeakers sid;
          speakerName = (case speakerNum of
                           None \<Rightarrow> Unknown
                         | Some n \<Rightarrow> if n \<noteq> 0 then Speaker n else Unknown)
      in (newSpeakers, speakerName))"

text \<open>
  A run of final transcription events over the registry: the labels in the order of the
  events, and the registry at the end.
\<close>

fun transcribed_all :: "speakers \<Rightarrow> jsval list \<Rightarrow> speakerName list \<times> speakers" where
  "transcribed_all m [] = ([], m)"
| "transcribed_all m (sid # sids) =
     (let (m', name) = onTranscribed_updater m sid;
          (names, m'') = transcribed_all m' sids
      in (name # names, m''))"

text \<open>The truthy identifiers of a run in the order of their first appearance.\<close>

fun first_seen :: "jsval list \<Rightarrow> jsval list \<Rightarrow> jsval list" where
  "first_seen known [] = known"
| "first_seen known (sid # sids) =
     first_seen (if truthy sid \<and> sid \<notin> set known then known @ [sid] else known) sids"

section \<open>The speech service\<close>

text \<open>
  The fields of SpeechService. A resource field says whether the reference is non-null,
  a timer field whether it holds a timer id; \<open>sessionStartTime\<close> is a \<open>Date.now()\<close>
  value in milliseconds or null.
\<close>

record service =
  conversationTranscriber :: bool
  audioConfig :: bool
  speechConfig :: bool
  isRunning :: bool
  tokenRefreshInterval :: bool
  sessionRestartTimer :: bool
  sessionStartTime :: "int option"
  autoReconnectEnabled :: bool

definition constructor :: service where
  "constructor = \<lparr> conversationTranscriber = False, audioConfig = False, speechConfig = False,
     isRunning = False, tokenRefreshInterval = False, sessionRestartTimer = False,
     sessionStartTime = None, autoReconnectEnabled = False \<rparr>"

definition TOKEN_REFRESH_INTERVAL :: int where
  "TOKEN_REFRESH_INTERVAL = 8 * 60 * 1000"

definition SESSION_TIMEOUT_MS :: int where
  "SESSION_TIMEOUT_MS = 19 * 60 * 1000"

text \<open>
  The texts the service passes to its callbacks are fixed sentences around a variable
  part; each constructor is one template and carries the variable part.
\<close>

datatype reason =
    ProactiveReason    \<comment> \<open>passed by the session restart timer\<close>
  | TimeoutReason      \<comment> \<open>passed by the canceled handler\<close>
  | StoppedReason      \<comment> \<open>passed by the sessionStopped handler\<close>
  | DefaultReason      \<comment> \<open>the default value of the parameter\<close>

datatype hint = NoHint | WebSocketHint | TimeoutHint

datatype message =
    TokenFailed string                      \<comment> \<open>thrown by getAuthorizationToken\<close>
  | RecognitionError "string option" hint   \<comment> \<open>errorMsg of the canceled handler\<close>
  | StartFailed string                      \<comment> \<open>error callback of startTranscribingAsync\<close>
  | RestartFailed message                   \<comment> \<open>catch of restartSession, for onError\<close>

text \<open>
  What a piece of service code does to the outside, in order: the callbacks it invokes,
  the timers it sets and clears, and the calls it makes on the SDK and the network.
\<close>

datatype effect =
    OnSessionStarted
  | OnSessionStopped
  | OnSessionRestarting reason
  | OnSessionRestarted
  | OnSessionRestartFailed message
  | OnError message
  | OnTranscribing string jsval
  | OnTranscribed string jsval
  | SetInterval_refreshToken int
  | ClearInterval_refreshToken
  | SetTimeout_sessionRestart int
  | ClearTimeout_sessionRestart
  | SetTimeout_restartSession reason int
  | GetAuthorizationToken
  | New_SpeechConfig
  | New_AudioConfig
  | New_ConversationTranscriber
  | StartTranscribingAsync
  | StopTranscribingAsync
  | Close_conversationTranscriber
  | Close_audioConfig
  | Close_speechConfig

type_synonym action = "service \<Rightarrow> service \<times> effect list"

text \<open>Running one piece of code after another: the effects are concatenated.\<close>

definition and_then :: "action \<Rightarrow> action \<Rightarrow> action" where
  "and_then f g s = (let (s1, e1) = f s; (s2, e2) = g s1 in (s2, e1 @ e2))"

definition stopTokenRefresh :: action where
  "stopTokenRefresh s =
     (if tokenRefreshInterval s
      then (s\<lparr>tokenRefreshInterval := False\<rparr>, [ClearInterval_refreshToken])
      else (s, []))"

definition startTokenRefresh :: action where
  "startTokenRefresh =
     and_then stopTokenRefresh
       (\<lambda>s. (s\<lparr>tokenRefreshInterval := True\<rparr>, [SetInterval_refreshToken TOKEN_REFRESH_INTERVAL]))"

definition stopSessionRestartTimer :: action where
  "stopSessionRestartTimer s =
     (if sessionRestartTimer s
      then (s\<lparr>sessionRestartTimer := False\<rparr>, [ClearTimeout_sessionRestart])
      else (s, []))"

definition startSessionRestartTimer :: action where
  "startSessionRestartTimer =
     and_then stopSessionRestartTimer
       (\<lambda>s. (s\<lparr>sessionRestartTimer := True\<rparr>, [SetTimeout_sessionRestart SESSION_TIMEOUT_MS]))"

subsection \<open>The event handlers set up on the transcriber\<close>

definition transcribing :: "result \<Rightarrow> service \<Rightarrow> (service \<times> effect list) option" where
  "transcribing r s =
     (if reason r = RecognizingSpeech \<and> text_of r \<noteq> []
      then (case extractSpeakerId r of
              Inl e \<Rightarrow> None
            | Inr sid \<Rightarrow> Some (s, [OnTranscribing (text_of r) sid]))
      else Some (s, []))"

definition transcribed :: "result \<Rightarrow> service \<Rightarrow> (service \<times> effect list) option" where
  "transcribed r s =
     (if reason r = RecognizedSpeech \<and> text_of r \<noteq> []
      then (case extractSpeakerId r of
              Inl e \<Rightarrow> None
            | Inr sid \<Rightarrow> Some (s, [OnTranscribed (text_of r) sid]))
      else Some (s, []))"

text \<open>
  \<open>e.errorDetails?.includes(pat)\<close>: undefined, hence falsy, when the details are
  absent.
\<close>

definition details_include :: "string option \<Rightarrow> string \<Rightarrow> bool" where
  "details_include errorDetails pat =
     (case errorDetails of None \<Rightarrow> False | Some d \<Rightarrow> includes_str d pat)"

definition isTimeoutError :: "string option \<Rightarrow> bool" where
  "isTimeoutError errorDetails =
     (details_include errorDetails ''StatusCode: 0''
      \<or> details_include errorDetails ''Unable to contact server''
      \<or> details_include errorDetails ''StatusCode:0'')"

text \<open>
  The canceled handler. The delayed call of restartSession is the effect
  \<open>SetTimeout_restartSession\<close>; the early return of the reconnect branch leaves out
  the error callback.
\<close>

definition canceled :: "string option \<Rightarrow> action" where
  "canceled errorDetails s =
     (let wasRunning = isRunning s;
          s1 = s\<lparr>isRunning := False\<rparr>
      in if details_include errorDetails ''StatusCode: 1006''
         then (s1, [OnError (RecognitionError errorDetails WebSocketHint)])
         else if isTimeoutError errorDetails
         then (if autoReconnectEnabled s1 \<and> wasRunning
               then (s1, [SetTimeout_restartSession TimeoutReason 1000])
               else (s1, [OnError (RecognitionError errorDetails TimeoutHint)]))
         else (s1, [OnError (RecognitionError errorDetails NoHint)]))"

text \<open>
  The sessionStopped handler; \<open>now\<close> is the value of \<open>Date.now()\<close>. A start time
  is truthy unless it is null or 0.
\<close>

definition sessionStopped :: "int \<Rightarrow> action" where
  "sessionStopped now s =
     (let wasRunning = isRunning s;
          s1 = s\<lparr>isRunning := False\<rparr>
      in if autoReconnectEnabled s1 \<and> wasRunning
         then (let sessionDuration = (case sessionStartTime s1 of
                                        None \<Rightarrow> 0
                                      | Some t \<Rightarrow> if t \<noteq> 0 then now - t else 0)
               in if sessionDuration \<ge> 18 * 60 * 1000
                  then (s1, [SetTimeout_restartSession StoppedReason 1000])
                  else (s1, [OnSessionStopped]))
         else (s1, [OnSessionStopped]))"

text \<open>
  The duration the sessionStopped handler computes: the time since the recorded start,
  and 0 when no start time is recorded.
\<close>

definition sessionDuration :: "int \<Rightarrow> service \<Rightarrow> int" where
  "sessionDuration now s =
     (case sessionStartTime s of None \<Rightarrow> 0 | Some t \<Rightarrow> if t \<noteq> 0 then now - t else 0)"

subsection \<open>Starting, restarting and stopping\<close>

text \<open>
  start and restartSession are async functions. Each is cut at its \<open>await\<close>s into the
  pieces that run without interruption; a piece gives the next service state, its effects,
  and how the call goes on: it has returned, it has thrown, or it is suspended until the
  environment completes what it awaits.
\<close>

datatype outcome =
    Returned
  | Threw message
  | Await_stop bool    \<comment> \<open>restartSession awaits the stop callback; holds \<open>wasRunning\<close>\<close>
  | Await_token        \<comment> \<open>start awaits getAuthorizationToken\<close>

text \<open>start up to its first \<open>await\<close>.\<close>

definition start :: "service \<Rightarrow> service \<times> effect list \<times> outcome" where
  "start s = (if isRunning s then (s, [], Returned) else (s, [GetAuthorizationToken], Await_token))"

text \<open>
  start from the answer of getAuthorizationToken on: \<open>Inl\<close> is the message of the error
  it throws, \<open>Inr\<close> the token and the region. The constructors of the SDK are taken to
  return normally. The function returns as soon as startTranscribingAsync has been
  called; the two callbacks given to it run later, when the SDK reports the outcome.
\<close>

definition start_resume :: "string + string \<times> string \<Rightarrow> service \<Rightarrow> service \<times> effect list \<times> outcome" where
  "start_resume answer s =
     (case answer of
        Inl detail \<Rightarrow> (s\<lparr>isRunning := False\<rparr>, [], Threw (TokenFailed detail))
      | Inr token_region \<Rightarrow>
          (s\<lparr>speechConfig := True, audioConfig := True, conversationTranscriber := True\<rparr>,
           [New_SpeechConfig, New_AudioConfig, New_ConversationTranscriber, StartTranscribingAsync],
           Returned))"

text \<open>The success and the error callback of startTranscribingAsync.\<close>

definition start_succeeded :: "int \<Rightarrow> action" where
  "start_succeeded now =
     and_then (\<lambda>s. (s\<lparr>isRunning := True, sessionStartTime := Some now\<rparr>, [OnSessionStarted]))
       (and_then startTokenRefresh
          (\<lambda>s. if autoReconnectEnabled s then startSessionRestartTimer s else (s, [])))"

definition start_failed :: "string \<Rightarrow> action" where
  "start_failed err s = (s\<lparr>isRunning := False\<rparr>, [OnError (StartFailed err)])"

text \<open>
  The end of restartSession, from the result of its call of start on: the notification
  of success when start returned, the \<open>catch\<close> when it threw.
\<close>

definition restartSession_finish :: "service \<times> effect list \<times> outcome \<Rightarrow> service \<times> effect list \<times> outcome" where
  "restartSession_finish r =
     (case r of
        (s, es, Returned) \<Rightarrow> (s, es @ [OnSessionRestarted], Returned)
      | (s, es, Threw m) \<Rightarrow> (s, es @ [OnSessionRestartFailed m, OnError (RestartFailed m)], Returned)
      | (s, es, k) \<Rightarrow> (s, es, k))"

text \<open>
  restartSession from the stop callback on: the resources are closed, the references to
  the transcriber and the audio configuration reset, and start is called.
\<close>

definition close_resources :: "service \<Rightarrow> effect list" where
  "close_resources s =
     (if conversationTranscriber s then [Close_conversationTranscriber] else [])
     @ (if audioConfig s then [Close_audioConfig] else [])
     @ (if speechConfig s then [Close_speechConfig] else [])"

definition restartSession_resume :: "bool \<Rightarrow> service \<Rightarrow> service \<times> effect list \<times> outcome" where
  "restartSession_resume wasRunning s =
     (let closes = close_resources s;
          s1 = s\<lparr>conversationTranscriber := False, audioConfig := False\<rparr>
      in if wasRunning
         then (case start s1 of (s2, es, k) \<Rightarrow> restartSession_finish (s2, closes @ es, k))
         else (s1, closes, Returned))"

text \<open>restartSession up to its first \<open>await\<close>.\<close>

definition restartSession :: "reason \<Rightarrow> service \<Rightarrow> service \<times> effect list \<times> outcome" where
  "restartSession why s =
     (if \<not> isRunning s \<or> \<not> autoReconnectEnabled s then (s, [], Returned)
      else
        (let wasRunning = isRunning s;
             (s1, e1) = and_then (\<lambda>s. (s\<lparr>isRunning := False\<rparr>, [OnSessionRestarting why]))
                          (and_then stopTokenRefresh stopSessionRestartTimer) s
         in if conversationTranscriber s1
            then (s1, e1 @ [StopTranscribingAsync], Await_stop wasRunning)
            else (case restartSession_resume wasRunning s1 of (s2, e2, k) \<Rightarrow> (s2, e1 @ e2, k))))"

text \<open>The callback of the session restart timer.\<close>

definition sessionRestartTimer_fired :: "service \<Rightarrow> service \<times> effect list \<times> outcome" where
  "sessionRestartTimer_fired s =
     (if isRunning s \<and> autoReconnectEnabled s then restartSession ProactiveReason s
      else (s, [], Returned))"

text \<open>
  stop. The callback given to stopTranscribingAsync sets \<open>isRunning\<close> to false when
  the SDK runs it, which is after stop has returned.
\<close>

definition stop :: action where
  "stop =
     and_then stopTokenRefresh
       (and_then stopSessionRestartTimer
          (\<lambda>s. let s1 = s\<lparr>autoReconnectEnabled := False\<rparr>
               in (s1\<lparr>conversationTranscriber := False, audioConfig := False,
                        speechConfig := False, sessionStartTime := None\<rparr>,
                   (if conversationTranscriber s1 \<and> isRunning s1 then [StopTranscribingAsync] else [])
                   @ close_resources s1)))"

definition stop_completed :: action where
  "stop_completed s = (s\<lparr>isRunning := False\<rparr>, [])"

definition enableAutoReconnect :: action where
  "enableAutoReconnect s =
     (let s1 = s\<lparr>autoReconnectEnabled := True\<rparr>
      in if isRunning s1 then startSessionRestartTimer s1 else (s1, []))"

definition disableAutoReconnect :: action where
  "disableAutoReconnect =
     and_then (\<lambda>s. (s\<lparr>autoReconnectEnabled := False\<rparr>, [])) stopSessionRestartTimer"

section \<open>The App component\<close>

text \<open>
  The React state of App that the callbacks write. The entries of the event log and of
  the transcription list are kept without their generated ids and time stamps.
\<close>

datatype log_entry =
    Log_session_started
  | Log_transcribing string jsval
  | Log_transcribed string jsval speakerName
  | Log_session_stopped
  | Log_restarting reason
  | Log_restarted
  | Log_restart_failed message
  | Log_error message

record app =
  isListening :: bool
  transcriptions :: "(string \<times> jsval \<times> speakerName) list"
  error :: "message option"
  speakers :: speakers
  events :: "log_entry list"
  isSessionStarted :: bool

definition App :: app where
  "App = \<lparr> isListening = False, transcriptions = [], error = None, speakers = new_Map,
     events = [], isSessionStarted = False \<rparr>"

text \<open>
  The callbacks App gives to the service, by the effect that invokes them. App gives no
  callback for a refreshed token, and the other effects are no callbacks.
\<close>

fun callback :: "effect \<Rightarrow> app \<Rightarrow> app" where
  "callback OnSessionStarted a =
     a\<lparr>isSessionStarted := True, events := events a @ [Log_session_started]\<rparr>"
| "callback (OnTranscribing txt sid) a =
     a\<lparr>events := events a @ [Log_transcribing txt sid]\<rparr>"
| "callback (OnTranscribed txt sid) a =
     (let (newSpeakers, speakerName) = onTranscribed_updater (speakers a) sid
      in a\<lparr>speakers := newSpeakers,
           transcriptions := transcriptions a @ [(txt, sid, speakerName)],
           events := events a @ [Log_transcribed txt sid speakerName]\<rparr>)"
| "callback OnSessionStopped a =
     a\<lparr>isSessionStarted := False, events := events a @ [Log_session_stopped]\<rparr>"
| "callback (OnSessionRestarting why) a =
     a\<lparr>isSessionStarted := False, events := events a @ [Log_restarting why]\<rparr>"
| "callback OnSessionRestarted a =
     a\<lparr>events := events a @ [Log_restarted]\<rparr>"
| "callback (OnSessionRestartFailed m) a =
     a\<lparr>events := events a @ [Log_restart_failed m]\<rparr>"
| "callback (OnError m) a =
     a\<lparr>error := Some m, isListening := False, isSessionStarted := False,
       events := events a @ [Log_error m]\<rparr>"
| "callback e a = a"

definition handleClear :: "app \<Rightarrow> app" where
  "handleClear a = a\<lparr>transcriptions := [], speakers := new_Map, events := []\<rparr>"

section \<open>The service, the App and their environment\<close>

text \<open>
  JavaScript runs one piece of code at a time. The state of the whole is the service, the
  App, and what the environment still owes: the suspended calls of restartSession and of
  start, the calls of startTranscribingAsync and of stop's stopTranscribingAsync whose
  callbacks have not run, and the transcribers constructed and not closed. \<open>trace\<close>
  records every effect in order.
\<close>

datatype caller = By_restartSession | By_handleStart

record system =
  svc :: service
  ui :: app
  awaiting_stop :: "bool list"
  awaiting_token :: "caller list"
  starts_pending :: nat
  stops_pending :: nat
  live :: nat
  trace :: "effect list"

definition initial :: system where
  "initial = \<lparr> svc = constructor, ui = App, awaiting_stop = [], awaiting_token = [],
     starts_pending = 0, stops_pending = 0, live = 0, trace = [] \<rparr>"

fun perform1 :: "effect \<Rightarrow> system \<Rightarrow> system" where
  "perform1 StartTranscribingAsync sys =
     sys\<lparr>starts_pending := starts_pending sys + 1, trace := trace sys @ [StartTranscribingAsync]\<rparr>"
| "perform1 New_ConversationTranscriber sys =
     sys\<lparr>live := live sys + 1, trace := trace sys @ [New_ConversationTranscriber]\<rparr>"
| "perform1 Close_conversationTranscriber sys =
     sys\<lparr>live := live sys - 1, trace := trace sys @ [Close_conversationTranscriber]\<rparr>"
| "perform1 e sys = sys\<lparr>ui := callback e (ui sys), trace := trace sys @ [e]\<rparr>"

definition perform :: "effect list \<Rightarrow> system \<Rightarrow> system" where
  "perform es sys = fold perform1 es sys"

text \<open>
  What a piece of code leaves behind: the service state, the effects, and the suspended
  call, if any. A throw reaches a caller only in handleStart, whose \<open>catch\<close> shows the
  error and ends the listening state.
\<close>

definition settle :: "caller \<Rightarrow> service \<times> effect list \<times> outcome \<Rightarrow> system \<Rightarrow> system" where
  "settle c r sys =
     (case r of (s, es, k) \<Rightarrow>
        (let sys1 = perform es (sys\<lparr>svc := s\<rparr>)
         in case k of
              Returned \<Rightarrow> sys1
            | Threw m \<Rightarrow> sys1\<lparr>ui := (ui sys1)\<lparr>error := Some m, isListening := False\<rparr>\<rparr>
            | Await_stop w \<Rightarrow> sys1\<lparr>awaiting_stop := awaiting_stop sys1 @ [w]\<rparr>
            | Await_token \<Rightarrow> sys1\<lparr>awaiting_token := awaiting_token sys1 @ [c]\<rparr>))"

definition act :: "action \<Rightarrow> system \<Rightarrow> system" where
  "act f sys = (case f (svc sys) of (s, es) \<Rightarrow> perform es (sys\<lparr>svc := s\<rparr>))"

text \<open>
  What can happen next: a button of the App, a completion the environment owes, an event
  of the transcriber, or a timer callback. A completion nothing waits for does not
  happen; suspended calls of one kind are resumed oldest first. The timer callbacks and
  the transcriber events are accepted at any time.
\<close>

datatype event =
    HandleStart
  | HandleStop
  | HandleClear
  | Token_answer "string + string \<times> string"
  | Start_succeeded int
  | Start_failed string
  | Stop_acknowledged
  | Stop_completed
  | Transcribing result
  | Transcribed result
  | Canceled "string option"
  | SessionStopped int
  | SessionRestartTimer_fired
  | Delayed_restartSession reason

fun step :: "system \<Rightarrow> event \<Rightarrow> system" where
  "step sys HandleStart =
     (let sys1 = sys\<lparr>ui := (ui sys)\<lparr>error := None, isListening := True\<rparr>\<rparr>;
          sys2 = act enableAutoReconnect sys1
      in settle By_handleStart (start (svc sys2)) sys2)"
| "step sys HandleStop =
     (let sys1 = act stop sys;
          sys2 = sys1\<lparr>stops_pending := stops_pending sys1
                        + (if conversationTranscriber (svc sys) \<and> isRunning (svc sys) then 1 else 0)\<rparr>
      in sys2\<lparr>ui := (ui sys2)\<lparr>isListening := False, isSessionStarted := False\<rparr>\<rparr>)"
| "step sys HandleClear = sys\<lparr>ui := handleClear (ui sys)\<rparr>"
| "step sys (Token_answer a) =
     (case awaiting_token sys of
        [] \<Rightarrow> sys
      | c # cs \<Rightarrow>
          (let sys1 = sys\<lparr>awaiting_token := cs\<rparr>
           in case c of
                By_handleStart \<Rightarrow> settle c (start_resume a (svc sys1)) sys1
              | By_restartSession \<Rightarrow>
                  settle c (restartSession_finish (start_resume a (svc sys1))) sys1))"
| "step sys (Start_succeeded now) =
     (if starts_pending sys = 0 then sys
      else act (start_succeeded now) (sys\<lparr>starts_pending := starts_pending sys - 1\<rparr>))"
| "step sys (Start_failed err) =
     (if starts_pending sys = 0 then sys
      else act (start_failed err) (sys\<lparr>starts_pending := starts_pending sys - 1\<rparr>))"
| "step sys Stop_acknowledged =
     (case awaiting_stop sys of
        [] \<Rightarrow> sys
      | w # ws \<Rightarrow>
          (let sys1 = sys\<lparr>awaiting_stop := ws\<rparr>
           in settle By_restartSession (restartSession_resume w (svc sys1)) sys1))"
| "step sys Stop_completed =
     (if stops_pending sys = 0 then sys
      else act stop_completed (sys\<lparr>stops_pending := stops_pending sys - 1\<rparr>))"
| "step sys (Transcribing r) =
     (case transcribing r (svc sys) of
        None \<Rightarrow> sys
      | Some (s, es) \<Rightarrow> perform es (sys\<lparr>svc := s\<rparr>))"
| "step sys (Transcribed r) =
     (case transcribed r (svc sys) of
        None \<Rightarrow> sys
      | Some (s, es) \<Rightarrow> perform es (sys\<lparr>svc := s\<rparr>))"
| "step sys (Canceled errorDetails) = act (canceled errorDetails) sys"
| "step sys (SessionStopped now) = act (sessionStopped now) sys"
| "step sys SessionRestartTimer_fired =
     settle By_restartSession (sessionRestartTimer_fired (svc sys)) sys"
| "step sys (Delayed_restartSession why) =
     settle By_restartSession (restartSession why (svc sys)) sys"

definition run :: "system \<Rightarrow> event list \<Rightarrow> system" where
  "run sys evs = foldl step sys evs"

text \<open>
  The callback of the token refresh interval is left out: it writes none of the fields
  above, and no property below speaks of it.
\<close>

section \<open>Sessions used as examples\<close>

text \<open>
  A session that is listening: the start button was pressed, the token endpoint answered
  and the SDK ran the success callback at time 1000. Auto-reconnect is on, both timers
  are armed.
\<close>

definition listening :: system where
  "listening = run initial
     [HandleStart, Token_answer (Inr (''token'', ''chinaeast2'')), Start_succeeded 1000]"

text \<open>A final result that carries its speaker in the first-class field.\<close>

definition heard :: "string \<Rightarrow> jsval \<Rightarrow> result" where
  "heard txt sid = \<lparr> reason = RecognizedSpeech, text_of = txt, userId = Undefined,
     speakerId = sid, json = Undefined, JSON_parse_json = Inl SyntaxError,
     privResult = Undefined \<rparr>"

text \<open>The listening session after two speakers have been heard.\<close>

definition conversation :: system where
  "conversation = run listening
     [Transcribed (heard ''hello'' (Str ''Guest-1'')), Transcribed (heard ''hi'' (Str ''Guest-2''))]"

text \<open>
  A proactive restart that succeeds: the restart timer fires, the SDK acknowledges the
  stop, the token endpoint answers, and the SDK reports the new connection open.
\<close>

definition proactive_restart :: "event list" where
  "proactive_restart = [SessionRestartTimer_fired, Stop_acknowledged,
     Token_answer (Inr (''token'', ''chinaeast2'')), Start_succeeded 1141000]"


text \<open>
  The listening session after the stop button and then the start button, before the SDK
  has run the callback of stop: \<open>isRunning\<close> is still true, the start time is
  forgotten, and start has returned at once.
\<close>

definition stopped_and_started :: system where
  "stopped_and_started = run listening [HandleStop, HandleStart]"

text \<open>
  The stop button, the callback of stop, a new start that succeeds, and a final result
  of a speaker not heard before.
\<close>

definition stop_then_listen :: "event list" where
  "stop_then_listen = [HandleStop, Stop_completed, HandleStart,
     Token_answer (Inr (''token'', ''chinaeast2'')), Start_succeeded 5000,
     Transcribed (heard ''yes'' (Str ''Guest-3''))]"

text \<open>The listening session after a cancellation that is not survived.\<close>

definition after_fatal :: system where
  "after_fatal = run listening [Canceled (Some ''StatusCode: 1006'')]"

text \<open>
  A result without first-class speaker fields whose JSON parses to an object without
  speaker fields, and whose private result names a speaker.
\<close>

definition nested_without_id :: result where
  "nested_without_id = \<lparr> reason = RecognizedSpeech, text_of = ''hello'', userId = Undefined,
     speakerId = Undefined, json = Str ''{}'', JSON_parse_json = Inr (Obj []),
     privResult = Obj [(''SpeakerId'', Str ''Guest-1'')] \<rparr>"

section \<open>Notions used in the properties\<close>

text \<open>The registry that numbers the identifiers \<open>ks\<close> from 1 in their order.\<close>

definition enum :: "jsval list \<Rightarrow> speakers" where
  "enum ks = zip ks [1..<Suc (length ks)]"

definition label_in :: "jsval list \<Rightarrow> jsval \<Rightarrow> speakerName" where
  "label_in ks sid = (case map_of (enum ks) sid of None \<Rightarrow> Unknown | Some n \<Rightarrow> Speaker n)"

text \<open>
  A restart is in flight from the moment restartSession has passed its guard until the
  SDK has reported the outcome of the new connection: a call is suspended, or a start
  callback is owed.
\<close>

definition in_flight :: "system \<Rightarrow> bool" where
  "in_flight sys =
     (awaiting_stop sys \<noteq> [] \<or> awaiting_token sys \<noteq> [] \<or> starts_pending sys \<noteq> 0)"



text \<open>The events that write the registry: a final result and the clear button.\<close>

definition changes_registry :: "event \<Rightarrow> bool" where
  "changes_registry e = (case e of Transcribed r \<Rightarrow> True | HandleClear \<Rightarrow> True | _ \<Rightarrow> False)"

section \<open>The registry numbers speakers in the order of their first appearance\<close>

lemma enum_snoc: "enum (ks @ [k]) = enum ks @ [(k, Suc (length ks))]"
proof -
  have "[1..<Suc (Suc (length ks))] = [1..<Suc (length ks)] @ [Suc (length ks)]"
    by (rule upt_Suc_append) simp
  then show ?thesis
    by (simp add: enum_def del: upt_Suc)
qed

lemma map_fst_enum: "map fst (enum ks) = ks"
  by (simp add: enum_def del: upt_Suc)

lemma length_enum: "length (enum ks) = length ks"
  by (simp add: enum_def del: upt_Suc)

lemma map_of_enum_None: "(map_of (enum ks) k = None) = (k \<notin> set ks)"
  by (metis map_fst_enum map_of_eq_None_iff set_map)

lemma map_of_enum_Some: "map_of (enum ks) k = Some n \<Longrightarrow> k \<in> set ks \<and> n \<noteq> 0"
proof -
  assume "map_of (enum ks) k = Some n"
  then have "(k, n) \<in> set (zip ks [1..<Suc (length ks)])"
    unfolding enum_def by (rule map_of_SomeD)
  then have "k \<in> set ks" and "n \<in> set [1..<Suc (length ks)]"
    by (auto dest: set_zip_leftD set_zip_rightD)
  then show ?thesis by (simp del: upt_Suc)
qed

lemma new_Map_enum: "new_Map = enum []"
  by (simp add: new_Map_def enum_def)

lemma enum3: "enum [a, b, c] = [(a, 1), (b, 2), (c, 3)]"
  by (simp add: enum_def)

text \<open>One event on a registry that numbers \<open>ks\<close>.\<close>

lemma updater_enum:
  "onTranscribed_updater (enum ks) sid
     = (enum (first_seen ks [sid]), label_in (first_seen ks [sid]) sid)"
  by (auto simp: onTranscribed_updater_def Let_def Map_has_def Map_set_def Map_size_def
      Map_get_def label_in_def map_of_enum_None enum_snoc length_enum
      split: option.splits dest: map_of_enum_Some)

lemma first_seen_prefix: "\<exists>ext. first_seen ks sids = ks @ ext"
  by (induction sids arbitrary: ks) (auto, metis append_assoc)

lemma all_truthy_first_seen:
  "\<forall>k\<in>set ks. truthy k \<Longrightarrow> \<forall>k\<in>set (first_seen ks sids). truthy k"
proof (induction sids arbitrary: ks)
  case Nil
  then show ?case by simp
next
  case (Cons sid sids)
  show ?case
    unfolding first_seen.simps by (rule Cons.IH) (use Cons.prems in auto)
qed

lemma distinct_first_seen: "distinct ks \<Longrightarrow> distinct (first_seen ks sids)"
proof (induction sids arbitrary: ks)
  case Nil
  then show ?case by simp
next
  case (Cons sid sids)
  show ?case
    unfolding first_seen.simps by (rule Cons.IH) (use Cons.prems in auto)
qed

text \<open>A number, once given, is not touched by the identifiers that come later.\<close>

lemma enum_append_map_of: "k \<in> set ks \<Longrightarrow> map_of (enum (ks @ ext)) k = map_of (enum ks) k"
proof (induction ext rule: rev_induct)
  case Nil
  then show ?case by simp
next
  case (snoc x xs)
  then show ?case
    by (simp add: enum_snoc[of "ks @ xs" x, simplified] map_add_def map_of_enum_None
        split: option.splits)
qed

lemma label_in_later: "sid \<in> set ks \<Longrightarrow> label_in (first_seen ks sids) sid = label_in ks sid"
  using first_seen_prefix[of ks sids] by (auto simp: label_in_def enum_append_map_of)

lemma transcribed_all_enum:
  assumes "\<forall>k\<in>set ks. truthy k"
  shows "transcribed_all (enum ks) sids
           = (map (label_in (first_seen ks sids)) sids, enum (first_seen ks sids))"
  using assms
proof (induction sids arbitrary: ks)
  case Nil
  then show ?case by simp
next
  case (Cons sid sids)
  let ?ks' = "first_seen ks [sid]"
  have t: "\<forall>k\<in>set ?ks'. truthy k" using Cons.prems by auto
  have fs: "first_seen ks (sid # sids) = first_seen ?ks' sids" by simp
  have lab: "label_in ?ks' sid = label_in (first_seen ?ks' sids) sid"
  proof (cases "sid \<in> set ?ks'")
    case True
    then show ?thesis by (simp add: label_in_later)
  next
    case False
    then have nt: "\<not> truthy sid" by (auto split: if_splits)
    have "sid \<notin> set (first_seen ?ks' sids)"
      using all_truthy_first_seen[OF t, of sids] nt by blast
    then show ?thesis using False
      by (simp add: label_in_def map_of_enum_None[THEN iffD2])
  qed
  show ?case
    unfolding fs using Cons.IH[OF t] lab
    by (simp add: updater_enum)
qed

lemma transcribed_all_append:
  "transcribed_all m (xs @ ys) =
     (let (names1, m1) = transcribed_all m xs; (names2, m2) = transcribed_all m1 ys
      in (names1 @ names2, m2))"
  by (induction xs arbitrary: m) (auto split: prod.splits)

text \<open>
  Claim C3. Take any run of final transcription events, started on the empty registry,
  in which the truthy speaker identifiers appear for the first time in the order
  \<open>a\<close>, \<open>b\<close>, \<open>c\<close>. Every event that carries \<open>a\<close> is labelled with number 1,
  every event that carries \<open>b\<close> with 2 and every event that carries \<open>c\<close> with 3,
  however the events are interleaved and repeated; the three identifiers are distinct;
  the registry ends as the three pairs; and one more event with \<open>a\<close> is labelled 1
  again and leaves the registry as it is.
\<close>

theorem speakers_numbered_by_first_appearance:
  assumes "first_seen [] sids = [a, b, c]"
  shows "transcribed_all new_Map sids =
           (map (\<lambda>sid. if sid = a then Speaker 1 else if sid = b then Speaker 2
                       else if sid = c then Speaker 3 else Unknown) sids,
            [(a, 1), (b, 2), (c, 3)])
         \<and> distinct [a, b, c]
         \<and> onTranscribed_updater [(a, 1), (b, 2), (c, 3)] a = ([(a, 1), (b, 2), (c, 3)], Speaker 1)"
proof -
  have lab: "label_in [a, b, c] = (\<lambda>sid. if sid = a then Speaker 1 else if sid = b then Speaker 2
                       else if sid = c then Speaker 3 else Unknown)"
    by (rule ext) (simp add: label_in_def enum3)
  have "transcribed_all (enum []) sids = (map (label_in [a, b, c]) sids, enum [a, b, c])"
    using transcribed_all_enum[of "[]" sids] assms by simp
  then have run: "transcribed_all new_Map sids =
           (map (\<lambda>sid. if sid = a then Speaker 1 else if sid = b then Speaker 2
                       else if sid = c then Speaker 3 else Unknown) sids,
            [(a, 1), (b, 2), (c, 3)])"
    by (simp only: lab enum3 new_Map_enum)
  have d: "distinct [a, b, c]"
    using distinct_first_seen[of "[]" sids] assms by simp
  have again: "onTranscribed_updater [(a, 1), (b, 2), (c, 3)] a = ([(a, 1), (b, 2), (c, 3)], Speaker 1)"
    by (simp add: onTranscribed_updater_def Map_has_def Map_get_def)
  from run d again show ?thesis by blast
qed

text \<open>
  The run Guest-a, null, Guest-b, Guest-a, Guest-c, Guest-a: the hypothesis holds of it,
  and the labels are 1, unknown, 2, 1, 3, 1.
\<close>

theorem speakers_numbered_by_first_appearance_witness:
  "first_seen [] [Str ''a'', Null, Str ''b'', Str ''a'', Str ''c'', Str ''a'']
     = [Str ''a'', Str ''b'', Str ''c'']
   \<and> transcribed_all new_Map [Str ''a'', Null, Str ''b'', Str ''a'', Str ''c'', Str ''a'']
     = ([Speaker 1, Unknown, Speaker 2, Speaker 1, Speaker 3, Speaker 1],
        [(Str ''a'', 1), (Str ''b'', 2), (Str ''c'', 3)])"
proof -
  have h: "first_seen [] [Str ''a'', Null, Str ''b'', Str ''a'', Str ''c'', Str ''a'']
     = [Str ''a'', Str ''b'', Str ''c'']"
    by simp
  show ?thesis
    using h speakers_numbered_by_first_appearance[OF h] by simp
qed

text \<open>
  Claim C8. An event whose speaker identifier is null or undefined, coming after any run
  of events, leaves the registry exactly as it was and is labelled with the constant
  unknown label; the events before and after it get the labels and the registry they
  would get without it.
\<close>

theorem null_speaker_takes_no_number:
  assumes "sid = Null \<or> sid = Undefined"
  shows "(let m = snd (transcribed_all new_Map before) in onTranscribed_updater m sid = (m, Unknown))
       \<and> transcribed_all new_Map (before @ sid # after) =
           (let (names1, m1) = transcribed_all new_Map before;
                (names2, m2) = transcribed_all m1 after
            in (names1 @ Unknown # names2, m2))"
proof -
  let ?ks = "first_seen [] before"
  have m: "snd (transcribed_all new_Map before) = enum ?ks"
    using transcribed_all_enum[of "[]" before] by (simp add: new_Map_enum)
  have "\<forall>k\<in>set ?ks. truthy k"
    by (rule all_truthy_first_seen) simp
  moreover have "\<not> truthy sid" using assms by auto
  ultimately have "sid \<notin> set ?ks" by blast
  then have "map_of (enum ?ks) sid = None" by (simp add: map_of_enum_None)
  with \<open>\<not> truthy sid\<close> have one: "onTranscribed_updater (enum ?ks) sid = (enum ?ks, Unknown)"
    by (simp add: onTranscribed_updater_def Map_get_def)
  obtain names1 m1 where b: "transcribed_all new_Map before = (names1, m1)"
    by (cases "transcribed_all new_Map before")
  with m have m1: "m1 = enum ?ks" by simp
  obtain names2 m2 where a: "transcribed_all m1 after = (names2, m2)"
    by (cases "transcribed_all m1 after")
  show ?thesis
    using one a b m1 by (simp add: transcribed_all_append)
qed

text \<open>A null event between two known speakers and a third one.\<close>

theorem null_speaker_takes_no_number_witness:
  "transcribed_all new_Map ([Str ''a'', Str ''b''] @ Null # [Str ''c'', Str ''a''])
     = ([Speaker 1, Speaker 2] @ Unknown # [Speaker 3, Speaker 1],
        [(Str ''a'', 1), (Str ''b'', 2), (Str ''c'', 3)])"
  using null_speaker_takes_no_number[of Null "[Str ''a'', Str ''b'']" "[Str ''c'', Str ''a'']"]
  by (simp add: onTranscribed_updater_def Map_has_def Map_get_def Map_set_def Map_size_def
      new_Map_def)

section \<open>Speaker extraction\<close>

text \<open>extractSpeakerId returns on every result object: whatever the block throws is caught.\<close>

lemma extractSpeakerId_total: "\<exists>v. extractSpeakerId r = Inr v"
  by (simp add: extractSpeakerId_def split: sum.splits option.splits)

lemma or_props_falsy: "or_props v ks = Inr x \<Longrightarrow> \<not> truthy x \<Longrightarrow> x = Null"
  by (induction ks) (auto split: sum.splits if_splits)

text \<open>
  The function agrees with the extraction as the specification words it on every result
  but those where the JSON field is present, yields no identifier without throwing, and
  the private result would yield one.
\<close>

lemma extractSpeakerId_refines_spec:
  assumes "\<not> truthy (json r) \<or> truthy (js_or (userId r) (speakerId r))
           \<or> \<not> yields (or_props (privResult r) [''SpeakerId'', ''speakerId'', ''UserId'', ''userId''])
           \<or> yields (case JSON_parse_json r of Inl e \<Rightarrow> Inl e
                     | Inr j \<Rightarrow> or_props j [''SpeakerId'', ''UserId'', ''speakerId'', ''userId''])"
  shows "extractSpeakerId r = extractSpeakerId_spec r"
  using assms
  by (auto simp: extractSpeakerId_def extractSpeakerId_try_def extractSpeakerId_spec_def
      yields_def Let_def simp del: or_props.simps split: sum.splits dest: or_props_falsy)

text \<open>The two copies of the function compute the same.\<close>

lemma or_props_split:
  "or_props v [k1, k2, k3, k4] =
     (case or_props v [k1, k2] of
        Inl e \<Rightarrow> Inl e
      | Inr x \<Rightarrow> if truthy x then Inr x else or_props v [k3, k4])"
  by (simp split: sum.splits)

lemma extractSpeakerId_copies_agree: "extractSpeakerId_speechService r = extractSpeakerId r"
proof -
  have priv: "or_props (privResult r) [''SpeakerId'', ''speakerId'', ''UserId'', ''userId''] =
     (case or_props (privResult r) [''SpeakerId'', ''speakerId''] of
        Inl e \<Rightarrow> Inl e
      | Inr x \<Rightarrow> if truthy x then Inr x else or_props (privResult r) [''UserId'', ''userId''])"
    by (rule or_props_split)
  show ?thesis
    unfolding extractSpeakerId_speechService_def extractSpeakerId_speechService_try_def
      extractSpeakerId_def extractSpeakerId_try_def priv
    by (auto simp: js_or_def simp del: or_props.simps split: sum.splits dest: or_props_falsy)
qed

text \<open>
  Claim C9. On a result without first-class speaker fields, whose JSON parses to an
  object without speaker fields and whose private result names the speaker Guest-1,
  extractSpeakerId returns null, in both copies of the function: the branch of the JSON
  field returns before the private result is read. The extraction that tries the three
  paths in turn gives Guest-1.
\<close>

theorem extractSpeakerId_skips_private_result:
  "extractSpeakerId nested_without_id = Inr Null
   \<and> extractSpeakerId_speechService nested_without_id = Inr Null
   \<and> extractSpeakerId_spec nested_without_id = Inr (Str ''Guest-1'')"
  by (simp add: nested_without_id_def extractSpeakerId_def extractSpeakerId_try_def
      extractSpeakerId_speechService_def extractSpeakerId_speechService_try_def
      extractSpeakerId_spec_def js_or_def yields_def)

section \<open>Evaluating the example sessions\<close>

lemmas service_defs = and_then_def stopTokenRefresh_def startTokenRefresh_def
  stopSessionRestartTimer_def startSessionRestartTimer_def start_def start_resume_def
  start_succeeded_def start_failed_def restartSession_finish_def close_resources_def
  restartSession_resume_def restartSession_def sessionRestartTimer_fired_def stop_def
  stop_completed_def enableAutoReconnect_def disableAutoReconnect_def

lemmas system_defs = run_def settle_def act_def perform_def

lemmas eval_defs = initial_def constructor_def App_def new_Map_def service_defs system_defs
  TOKEN_REFRESH_INTERVAL_def SESSION_TIMEOUT_MS_def transcribed_def transcribing_def
  extractSpeakerId_def extractSpeakerId_try_def js_or_def onTranscribed_updater_def
  Map_has_def Map_get_def Map_set_def Map_size_def canceled_def sessionStopped_def
  isTimeoutError_def details_include_def heard_def handleClear_def

lemma listening_eq:
  "listening = \<lparr> svc = \<lparr> conversationTranscriber = True, audioConfig = True, speechConfig = True,
       isRunning = True, tokenRefreshInterval = True, sessionRestartTimer = True,
       sessionStartTime = Some 1000, autoReconnectEnabled = True \<rparr>,
     ui = \<lparr> isListening = True, transcriptions = [], error = None, speakers = [],
       events = [Log_session_started], isSessionStarted = True \<rparr>,
     awaiting_stop = [], awaiting_token = [], starts_pending = 0, stops_pending = 0, live = 1,
     trace = [GetAuthorizationToken, New_SpeechConfig, New_AudioConfig,
       New_ConversationTranscriber, StartTranscribingAsync, OnSessionStarted,
       SetInterval_refreshToken 480000, SetTimeout_sessionRestart 1140000] \<rparr>"
  by (simp add: listening_def eval_defs)

lemma conversation_eq:
  "conversation = listening\<lparr> ui := (ui listening)\<lparr>
       transcriptions := [(''hello'', Str ''Guest-1'', Speaker 1), (''hi'', Str ''Guest-2'', Speaker 2)],
       speakers := [(Str ''Guest-1'', 1), (Str ''Guest-2'', 2)],
       events := [Log_session_started, Log_transcribed ''hello'' (Str ''Guest-1'') (Speaker 1),
                  Log_transcribed ''hi'' (Str ''Guest-2'') (Speaker 2)]\<rparr>,
     trace := trace listening
       @ [OnTranscribed ''hello'' (Str ''Guest-1''), OnTranscribed ''hi'' (Str ''Guest-2'')]\<rparr>"
  by (simp add: conversation_def listening_eq eval_defs)

lemma stopped_and_started_svc:
  "svc stopped_and_started = \<lparr> conversationTranscriber = False, audioConfig = False, speechConfig = False,
       isRunning = True, tokenRefreshInterval = False, sessionRestartTimer = True,
       sessionStartTime = None, autoReconnectEnabled = True \<rparr>
   \<and> awaiting_stop stopped_and_started = [] \<and> awaiting_token stopped_and_started = []
   \<and> starts_pending stopped_and_started = 0"
  by (simp add: stopped_and_started_def listening_eq eval_defs)

section \<open>The reconnect policy of the event handlers\<close>

text \<open>
  Claim C1, as the code has it. The canceled handler leaves out the error callback and
  schedules one call of restartSession, 1000 ms later, exactly when the error details
  are timeout-like, do not contain the text of status code 1006, auto-reconnect is
  enabled and the service was running. In every other case it invokes the error
  callback once and schedules nothing.
\<close>

theorem canceled_reconnect_policy:
  "(snd (canceled errorDetails s) = [SetTimeout_restartSession TimeoutReason 1000])
     = (isTimeoutError errorDetails \<and> \<not> details_include errorDetails ''StatusCode: 1006''
        \<and> autoReconnectEnabled s \<and> isRunning s)
   \<and> ((\<exists>m. snd (canceled errorDetails s) = [OnError m])
     = (\<not> (isTimeoutError errorDetails \<and> \<not> details_include errorDetails ''StatusCode: 1006''
        \<and> autoReconnectEnabled s \<and> isRunning s)))"
  by (auto simp: canceled_def Let_def)

text \<open>
  The same timeout-like details reach the listening session, where the reconnect is
  scheduled, and the session whose \<open>isRunning\<close> is already false, where the error
  callback is invoked.
\<close>

theorem canceled_reconnect_policy_witness:
  "snd (canceled (Some ''Unable to contact server. StatusCode: 0'') (svc listening))
     = [SetTimeout_restartSession TimeoutReason 1000]
   \<and> snd (canceled (Some ''Unable to contact server. StatusCode: 0'') (svc after_fatal))
     = [OnError (RecognitionError (Some ''Unable to contact server. StatusCode: 0'') TimeoutHint)]"
  using canceled_reconnect_policy[of "Some ''Unable to contact server. StatusCode: 0''" "svc listening"]
    canceled_reconnect_policy[of "Some ''Unable to contact server. StatusCode: 0''" "svc after_fatal"]
  by (simp add: after_fatal_def listening_eq eval_defs)

text \<open>
  Claim C1 as stated fails: these details are timeout-like by the handler's own test,
  the service is running and auto-reconnect is enabled, yet the handler takes the branch
  of status code 1006, invokes the error callback and schedules no restart.
\<close>

theorem canceled_1006_counterexample:
  "isTimeoutError (Some ''Unable to contact server. StatusCode: 1006'')
   \<and> isRunning (svc listening) \<and> autoReconnectEnabled (svc listening)
   \<and> snd (canceled (Some ''Unable to contact server. StatusCode: 1006'') (svc listening))
       = [OnError (RecognitionError (Some ''Unable to contact server. StatusCode: 1006'') WebSocketHint)]"
  by (simp add: listening_eq canceled_def isTimeoutError_def details_include_def)

text \<open>
  Claim C6, as the code has it. The sessionStopped handler schedules one call of
  restartSession, 1000 ms later, and leaves out the stopped callback exactly when the
  service was running, auto-reconnect is enabled and the duration it computes is at
  least 18 minutes; in every other case it invokes the stopped callback and schedules
  nothing. The duration it computes is the time since the recorded start time, and 0
  when no start time is recorded.
\<close>

theorem sessionStopped_reconnect_policy:
  "(snd (sessionStopped now s) = [SetTimeout_restartSession StoppedReason 1000])
     = (isRunning s \<and> autoReconnectEnabled s \<and> sessionDuration now s \<ge> 18 * 60 * 1000)
   \<and> (snd (sessionStopped now s) = [OnSessionStopped])
     = (\<not> (isRunning s \<and> autoReconnectEnabled s \<and> sessionDuration now s \<ge> 18 * 60 * 1000))
   \<and> (sessionStartTime s = Some t \<and> t \<noteq> 0 \<longrightarrow> sessionDuration now s = now - t)
   \<and> (sessionStartTime s = None \<or> sessionStartTime s = Some 0 \<longrightarrow> sessionDuration now s = 0)"
  by (auto simp: sessionStopped_def sessionDuration_def Let_def split: option.splits)

text \<open>
  The listening session, started at 1000, is stopped at 18 minutes and one millisecond
  before; the session without a start time is stopped much later.
\<close>

theorem sessionStopped_reconnect_policy_witness:
  "snd (sessionStopped 1081000 (svc listening)) = [SetTimeout_restartSession StoppedReason 1000]
   \<and> snd (sessionStopped 1080999 (svc listening)) = [OnSessionStopped]
   \<and> sessionDuration 1081000 (svc listening) = 1080000
   \<and> sessionDuration 2000000 (svc stopped_and_started) = 0
   \<and> snd (sessionStopped 2000000 (svc stopped_and_started)) = [OnSessionStopped]"
proof -
  have h: "isRunning (svc listening)" "autoReconnectEnabled (svc listening)"
    "sessionStartTime (svc listening) = Some 1000"
    by (simp_all add: listening_eq)
  have g: "isRunning (svc stopped_and_started)" "autoReconnectEnabled (svc stopped_and_started)"
    "sessionStartTime (svc stopped_and_started) = None"
    by (simp_all add: stopped_and_started_svc)
  from sessionStopped_reconnect_policy[of 1081000 "svc listening" 1000]
    sessionStopped_reconnect_policy[of 1080999 "svc listening" 1000]
    sessionStopped_reconnect_policy[of 2000000 "svc stopped_and_started" 1000] h g
  show ?thesis by simp
qed

text \<open>
  Claim C6 as stated fails: the session started at 1000, stopped and started again by
  the buttons, is running with auto-reconnect enabled and nothing in flight; more than
  18 minutes after the start the stopped signal still invokes the stopped callback and
  schedules no restart, since stop has cleared the start time.
\<close>

theorem sessionStopped_no_start_time_counterexample:
  "sessionStartTime (svc listening) = Some 1000
   \<and> stopped_and_started = run listening [HandleStop, HandleStart]
   \<and> isRunning (svc stopped_and_started) \<and> autoReconnectEnabled (svc stopped_and_started)
   \<and> \<not> in_flight stopped_and_started
   \<and> (2000000::int) - 1000 \<ge> 18 * 60 * 1000
   \<and> snd (sessionStopped 2000000 (svc stopped_and_started)) = [OnSessionStopped]"
proof -
  have a: "sessionStartTime (svc listening) = Some 1000"
    by (simp add: listening_eq)
  have b: "stopped_and_started = run listening [HandleStop, HandleStart]"
    by (rule stopped_and_started_def)
  have c: "isRunning (svc stopped_and_started) \<and> autoReconnectEnabled (svc stopped_and_started)
     \<and> \<not> in_flight stopped_and_started
     \<and> snd (sessionStopped 2000000 (svc stopped_and_started)) = [OnSessionStopped]"
    by (simp add: stopped_and_started_svc in_flight_def sessionStopped_def)
  from a b c show ?thesis by simp
qed

section \<open>What performing effects changes\<close>

lemma perform_Nil [simp]: "perform [] sys = sys"
  by (simp add: perform_def)

lemma perform_Cons [simp]: "perform (e # es) sys = perform es (perform1 e sys)"
  by (simp add: perform_def)

lemma perform_append [simp]: "perform (es @ fs) sys = perform fs (perform es sys)"
  by (simp add: perform_def)

lemma perform1_fields [simp]:
  "svc (perform1 e sys) = svc sys"
  "awaiting_stop (perform1 e sys) = awaiting_stop sys"
  "awaiting_token (perform1 e sys) = awaiting_token sys"
  "stops_pending (perform1 e sys) = stops_pending sys"
  by (cases e; simp)+

lemma perform_fields [simp]:
  "svc (perform es sys) = svc sys"
  "awaiting_stop (perform es sys) = awaiting_stop sys"
  "awaiting_token (perform es sys) = awaiting_token sys"
  "stops_pending (perform es sys) = stops_pending sys"
  by (induction es arbitrary: sys; simp)+


lemma speakers_perform1:
  "speakers (ui (perform1 e sys)) =
     (case e of OnTranscribed txt sid \<Rightarrow> fst (onTranscribed_updater (speakers (ui sys)) sid)
              | _ \<Rightarrow> speakers (ui sys))"
  by (cases e; simp split: prod.splits)

section \<open>The guard of restartSession\<close>

lemma guard_step:
  "\<not> isRunning (svc sys) \<or> \<not> autoReconnectEnabled (svc sys) \<Longrightarrow>
     step sys (Delayed_restartSession why) = sys \<and> step sys SessionRestartTimer_fired = sys"
  by (auto simp: settle_def restartSession_def sessionRestartTimer_fired_def)

text \<open>Only the start button enables auto-reconnect.\<close>

lemma autoReconnect_stays_off:
  "e \<noteq> HandleStart \<Longrightarrow> \<not> autoReconnectEnabled (svc sys)
     \<Longrightarrow> \<not> autoReconnectEnabled (svc (step sys e))"
  by (cases e)
     (auto simp: settle_def act_def service_defs canceled_def sessionStopped_def transcribing_def
        transcribed_def Let_def split: if_splits list.splits caller.splits sum.splits)

text \<open>
  Claim C10. A call of restartSession on a service that is not running, or whose
  auto-reconnect is disabled, returns at once: the service state is unchanged, there is
  no effect (no callback, no timer cleared, no resource closed, no connection opened)
  and nothing is left suspended; the whole system is unchanged when such a call comes
  from a timer. The service is constructed with auto-reconnect disabled, and no event
  but the start button enables it.
\<close>

theorem restartSession_guard:
  assumes "\<not> isRunning s \<or> \<not> autoReconnectEnabled s"
  shows "restartSession why s = (s, [], Returned)
       \<and> (svc sys = s \<longrightarrow> step sys (Delayed_restartSession why) = sys)
       \<and> \<not> autoReconnectEnabled constructor
       \<and> (e \<noteq> HandleStart \<and> \<not> autoReconnectEnabled (svc sys)
            \<longrightarrow> \<not> autoReconnectEnabled (svc (step sys e)))"
  using assms guard_step[of sys why] autoReconnect_stays_off[of e sys]
  by (auto simp: restartSession_def constructor_def simp del: step.simps)

text \<open>
  After a cancellation auto-reconnect is still enabled but the service no longer runs:
  a direct call of restartSession does nothing.
\<close>

theorem restartSession_guard_witness:
  "\<not> isRunning (svc after_fatal) \<and> autoReconnectEnabled (svc after_fatal)
   \<and> restartSession DefaultReason (svc after_fatal) = (svc after_fatal, [], Returned)
   \<and> step after_fatal (Delayed_restartSession DefaultReason) = after_fatal"
proof -
  have h: "\<not> isRunning (svc after_fatal) \<and> autoReconnectEnabled (svc after_fatal)"
    by (simp add: after_fatal_def listening_eq eval_defs)
  then have g: "\<not> isRunning (svc after_fatal) \<or> \<not> autoReconnectEnabled (svc after_fatal)"
    by simp
  from restartSession_guard[OF g, of DefaultReason after_fatal] h show ?thesis
    by (simp del: step.simps)
qed

section \<open>One restart at a time\<close>




















section \<open>The registry across restarts and stops\<close>

lemma speakers_step:
  "\<not> changes_registry e \<Longrightarrow> speakers (ui (step sys e)) = speakers (ui sys)"
proof (cases e)
  case HandleStart
  then show ?thesis
    by (auto simp: settle_def act_def service_defs speakers_perform1 Let_def split: if_splits)
next
  case HandleStop
  then show ?thesis
    by (auto simp: act_def service_defs speakers_perform1 Let_def split: if_splits)
next
  case HandleClear
  assume "\<not> changes_registry e"
  with HandleClear show ?thesis by (simp add: changes_registry_def)
next
  case (Token_answer a)
  then show ?thesis
    by (auto simp: settle_def service_defs speakers_perform1 Let_def
        split: if_splits list.splits caller.splits sum.splits)
next
  case (Start_succeeded now)
  then show ?thesis
    by (auto simp: act_def service_defs speakers_perform1 Let_def split: if_splits)
next
  case (Start_failed err)
  then show ?thesis
    by (auto simp: act_def service_defs speakers_perform1 Let_def split: if_splits)
next
  case Stop_acknowledged
  then show ?thesis
    by (auto simp: settle_def service_defs speakers_perform1 Let_def split: if_splits list.splits)
next
  case Stop_completed
  then show ?thesis
    by (auto simp: act_def service_defs speakers_perform1 Let_def split: if_splits)
next
  case (Transcribing r)
  then show ?thesis
    by (auto simp: transcribing_def speakers_perform1 split: if_splits sum.splits)
next
  case (Transcribed r)
  assume "\<not> changes_registry e"
  with Transcribed show ?thesis by (simp add: changes_registry_def)
next
  case (Canceled d)
  then show ?thesis
    by (auto simp: act_def canceled_def speakers_perform1 Let_def split: if_splits)
next
  case (SessionStopped now)
  then show ?thesis
    by (auto simp: act_def sessionStopped_def speakers_perform1 Let_def split: if_splits)
next
  case SessionRestartTimer_fired
  then show ?thesis
    by (auto simp: settle_def service_defs speakers_perform1 Let_def split: if_splits)
next
  case (Delayed_restartSession why)
  then show ?thesis
    by (auto simp: settle_def service_defs speakers_perform1 Let_def split: if_splits)
qed

lemma speakers_run:
  "\<forall>e\<in>set evs. \<not> changes_registry e \<Longrightarrow> speakers (ui (run sys evs)) = speakers (ui sys)"
  unfolding run_def
  by (induction evs arbitrary: sys) (simp_all add: speakers_step)

lemma updater_new:
  "truthy sid \<Longrightarrow> \<not> Map_has m sid \<Longrightarrow>
     onTranscribed_updater m sid = (m @ [(sid, Map_size m + 1)], Speaker (Map_size m + 1))"
  by (auto simp: onTranscribed_updater_def Map_has_def Map_set_def Map_get_def Map_size_def Let_def
      map_add_def)

text \<open>
  Claim C4. Whatever happens between two final results, short of the clear button, the
  registry stays as it is: in particular every piece of a restart (the trigger, the
  acknowledged stop, the token answer, the start callbacks) leaves each pairing of
  identifier and number untouched. An identifier first seen afterwards gets the number
  that follows the size the registry had before.
\<close>

theorem restart_keeps_speakers:
  assumes "\<forall>e\<in>set evs. \<not> changes_registry e"
  shows "speakers (ui (run sys evs)) = speakers (ui sys)
       \<and> (truthy sid \<and> \<not> Map_has (speakers (ui sys)) sid \<longrightarrow>
            onTranscribed_updater (speakers (ui (run sys evs))) sid
              = (speakers (ui sys) @ [(sid, Map_size (speakers (ui sys)) + 1)],
                 Speaker (Map_size (speakers (ui sys)) + 1)))"
  using speakers_run[OF assms, of sys] by (simp add: updater_new)

text \<open>
  The conversation of two speakers goes through a proactive restart that succeeds; both
  pairings are as before, and a third speaker heard afterwards gets number 3.
\<close>

theorem restart_keeps_speakers_witness:
  "speakers (ui (run conversation proactive_restart)) = [(Str ''Guest-1'', 1), (Str ''Guest-2'', 2)]
   \<and> onTranscribed_updater (speakers (ui (run conversation proactive_restart))) (Str ''Guest-3'')
       = ([(Str ''Guest-1'', 1), (Str ''Guest-2'', 2), (Str ''Guest-3'', 3)], Speaker 3)
   \<and> OnSessionRestarted \<in> set (trace (run conversation proactive_restart))"
proof -
  have h: "\<forall>e\<in>set proactive_restart. \<not> changes_registry e"
    by (simp add: proactive_restart_def changes_registry_def)
  have t: "OnSessionRestarted \<in> set (trace (run conversation proactive_restart))"
    by (simp add: proactive_restart_def conversation_eq listening_eq eval_defs)
  show ?thesis
    using restart_keeps_speakers[OF h, of conversation "Str ''Guest-3''"] t
    by (simp add: proactive_restart_def conversation_eq listening_eq eval_defs)
qed

text \<open>What stop does to the outside, and how the registry can change.\<close>

lemma trace_perform1: "trace (perform1 e sys) = trace sys @ [e]"
  by (cases e; simp)

lemma trace_perform: "trace (perform es sys) = trace sys @ es"
  by (induction es arbitrary: sys) (simp_all add: trace_perform1)

lemma updater_extends: "\<exists>ext. fst (onTranscribed_updater m sid) = m @ ext"
  by (auto simp: onTranscribed_updater_def Map_set_def Let_def)

lemma speakers_extend_step:
  assumes "e \<noteq> HandleClear"
  shows "\<exists>ext. speakers (ui (step sys e)) = speakers (ui sys) @ ext"
proof (cases "changes_registry e")
  case False
  then show ?thesis by (simp add: speakers_step del: step.simps)
next
  case True
  with assms obtain r where e: "e = Transcribed r"
    by (cases e) (simp_all add: changes_registry_def)
  show ?thesis
    using updater_extends[of "speakers (ui sys)"]
    by (auto simp: e transcribed_def speakers_perform1 split: sum.splits simp del: perform1.simps)
qed

lemma speakers_extend_run:
  "HandleClear \<notin> set evs \<Longrightarrow> \<exists>ext. speakers (ui (run sys evs)) = speakers (ui sys) @ ext"
  unfolding run_def
proof (induction evs arbitrary: sys)
  case Nil
  then show ?case by simp
next
  case (Cons e evs)
  then have "e \<noteq> HandleClear" and rest: "HandleClear \<notin> set evs" by auto
  then obtain ext1 where 1: "speakers (ui (step sys e)) = speakers (ui sys) @ ext1"
    using speakers_extend_step by blast
  from Cons.IH[OF rest, of "step sys e"] obtain ext2
    where 2: "speakers (ui (foldl step (step sys e) evs)) = speakers (ui (step sys e)) @ ext2"
    by blast
  from 1 2 show ?case by (simp del: step.simps)
qed

text \<open>
  Claim C5, as the code has it. The stop button clears both timers where they are set,
  disables auto-reconnect, asks a running transcriber to stop, closes the transcriber,
  the audio configuration and the speech configuration where they are held, forgets all
  three and the start time, and does nothing else to the outside; it leaves the registry
  as it is. The clear button empties the registry, and no run of events without the
  clear button removes or changes an entry: the registry at its end is the registry at
  its start with the new speakers appended.
\<close>

theorem stop_releases_and_keeps_speakers:
  "(let sys' = step sys HandleStop in
      speakers (ui sys') = speakers (ui sys)
      \<and> \<not> tokenRefreshInterval (svc sys') \<and> \<not> sessionRestartTimer (svc sys')
      \<and> \<not> autoReconnectEnabled (svc sys')
      \<and> \<not> conversationTranscriber (svc sys') \<and> \<not> audioConfig (svc sys')
      \<and> \<not> speechConfig (svc sys')
      \<and> sessionStartTime (svc sys') = None
      \<and> trace sys' = trace sys
          @ (if tokenRefreshInterval (svc sys) then [ClearInterval_refreshToken] else [])
          @ (if sessionRestartTimer (svc sys) then [ClearTimeout_sessionRestart] else [])
          @ (if conversationTranscriber (svc sys) \<and> isRunning (svc sys)
             then [StopTranscribingAsync] else [])
          @ (if conversationTranscriber (svc sys) then [Close_conversationTranscriber] else [])
          @ (if audioConfig (svc sys) then [Close_audioConfig] else [])
          @ (if speechConfig (svc sys) then [Close_speechConfig] else []))
   \<and> speakers (handleClear (ui sys)) = new_Map
   \<and> (HandleClear \<notin> set evs
        \<longrightarrow> (\<exists>ext. speakers (ui (run sys evs)) = speakers (ui sys) @ ext))"
proof -
  have a: "speakers (ui (step sys HandleStop)) = speakers (ui sys)"
    by (rule speakers_step) (simp add: changes_registry_def)
  have b: "\<not> tokenRefreshInterval (svc (step sys HandleStop))
      \<and> \<not> sessionRestartTimer (svc (step sys HandleStop))
      \<and> \<not> autoReconnectEnabled (svc (step sys HandleStop))
      \<and> \<not> conversationTranscriber (svc (step sys HandleStop))
      \<and> \<not> audioConfig (svc (step sys HandleStop))
      \<and> \<not> speechConfig (svc (step sys HandleStop))
      \<and> sessionStartTime (svc (step sys HandleStop)) = None"
    by (auto simp: act_def service_defs Let_def)
  have c: "trace (step sys HandleStop) = trace sys
          @ (if tokenRefreshInterval (svc sys) then [ClearInterval_refreshToken] else [])
          @ (if sessionRestartTimer (svc sys) then [ClearTimeout_sessionRestart] else [])
          @ (if conversationTranscriber (svc sys) \<and> isRunning (svc sys)
             then [StopTranscribingAsync] else [])
          @ (if conversationTranscriber (svc sys) then [Close_conversationTranscriber] else [])
          @ (if audioConfig (svc sys) then [Close_audioConfig] else [])
          @ (if speechConfig (svc sys) then [Close_speechConfig] else [])"
    by (simp add: act_def service_defs Let_def trace_perform split: prod.splits del: perform_append perform_Cons)
  have d: "speakers (handleClear (ui sys)) = new_Map"
    by (simp add: handleClear_def)
  from a b c d speakers_extend_run[of evs sys] show ?thesis
    unfolding Let_def by blast
qed

text \<open>
  The conversation of two speakers is stopped: the timers, the transcriber and both
  configurations go and the two speakers stay; a third speaker heard after the next
  start gets number 3.
\<close>

theorem stop_releases_and_keeps_speakers_witness:
  "speakers (ui (step conversation HandleStop)) = [(Str ''Guest-1'', 1), (Str ''Guest-2'', 2)]
   \<and> \<not> autoReconnectEnabled (svc (step conversation HandleStop))
   \<and> \<not> conversationTranscriber (svc (step conversation HandleStop))
   \<and> trace (step conversation HandleStop) = trace conversation @
        [ClearInterval_refreshToken, ClearTimeout_sessionRestart, StopTranscribingAsync,
         Close_conversationTranscriber, Close_audioConfig, Close_speechConfig]
   \<and> speakers (ui (run conversation stop_then_listen))
       = [(Str ''Guest-1'', 1), (Str ''Guest-2'', 2), (Str ''Guest-3'', 3)]"
proof -
  have n: "HandleClear \<notin> set stop_then_listen"
    by (simp add: stop_then_listen_def)
  have r: "speakers (ui (run conversation stop_then_listen))
       = [(Str ''Guest-1'', 1), (Str ''Guest-2'', 2), (Str ''Guest-3'', 3)]"
    by (simp add: stop_then_listen_def conversation_eq listening_eq eval_defs)
  have s: "svc conversation = svc listening" "speakers (ui conversation) = [(Str ''Guest-1'', 1), (Str ''Guest-2'', 2)]"
    by (simp_all add: conversation_eq)
  from stop_releases_and_keeps_speakers[of conversation "stop_then_listen"] n r s
  show ?thesis
    by (simp add: Let_def listening_eq del: step.simps)
qed

text \<open>
  Claim C5 as stated fails: after the stop button the registry of the conversation still
  holds both speakers.
\<close>

theorem stop_keeps_speakers_counterexample:
  "speakers (ui (step conversation HandleStop)) = [(Str ''Guest-1'', 1), (Str ''Guest-2'', 2)]
   \<and> speakers (ui (step conversation HandleStop)) \<noteq> new_Map"
  by (simp add: conversation_eq listening_eq eval_defs)

section \<open>The order of the restart notifications\<close>

text \<open>
  When the token answer resumes a start that restartSession awaits, the restarted
  callback is invoked in the same piece of code that calls startTranscribingAsync; the
  started callback can only follow in a later event.
\<close>

lemma restarted_when_start_returns:
  "awaiting_token sys = By_restartSession # cs \<Longrightarrow>
     trace (step sys (Token_answer (Inr token_region))) = trace sys @
       [New_SpeechConfig, New_AudioConfig, New_ConversationTranscriber,
        StartTranscribingAsync, OnSessionRestarted]"
  by (simp add: settle_def start_resume_def restartSession_finish_def)

text \<open>
  Claim C7. In the listening session a proactive restart that succeeds produces these
  effects, in this order: the restarting callback, the timers cleared, the old
  connection stopped and closed, the token fetched, the new connection requested, the
  restarted callback, and only then, when the SDK reports the connection open, the
  started callback. The restarted callback comes before the started callback, since
  restartSession awaits start, which returns once startTranscribingAsync has been
  called. Neither the stopped nor the error callback is invoked.
\<close>

theorem restarted_before_started:
  "trace (run listening proactive_restart) = trace listening @
     [OnSessionRestarting ProactiveReason, ClearInterval_refreshToken, ClearTimeout_sessionRestart,
      StopTranscribingAsync, Close_conversationTranscriber, Close_audioConfig, Close_speechConfig,
      GetAuthorizationToken, New_SpeechConfig, New_AudioConfig, New_ConversationTranscriber,
      StartTranscribingAsync, OnSessionRestarted, OnSessionStarted,
      SetInterval_refreshToken 480000, SetTimeout_sessionRestart 1140000]"
  by (simp add: proactive_restart_def listening_eq eval_defs)

section \<open>The scheduled reconnect\<close>

text \<open>
  Both handlers set \<open>isRunning\<close> to false before they schedule restartSession, and
  restartSession returns at its guard when \<open>isRunning\<close> is false. So the call they
  schedule changes nothing when it comes next: the session is not restarted unless a
  start callback has run in between.
\<close>

theorem scheduled_reconnect_returns_at_guard:
  "step (step sys (Canceled errorDetails)) (Delayed_restartSession why)
     = step sys (Canceled errorDetails)
   \<and> step (step sys (SessionStopped now)) (Delayed_restartSession why)
     = step sys (SessionStopped now)"
proof -
  have "\<not> isRunning (svc (step sys (Canceled errorDetails)))"
    by (simp add: act_def canceled_def Let_def)
  moreover have "\<not> isRunning (svc (step sys (SessionStopped now)))"
    by (simp add: act_def sessionStopped_def Let_def)
  ultimately show ?thesis
    using guard_step[of "step sys (Canceled errorDetails)" why]
      guard_step[of "step sys (SessionStopped now)" why]
    by (simp del: step.simps)
qed

end
